theory Spec2Isabelle
  imports Main
begin

section \<open>DNSQuest: the iterative resolver of \<^verbatim>\<open>dnsquest/resolver.py\<close>\<close>

text \<open>
  The resolver walks the DNS delegation tree itself. Its engine,
  \<^verbatim>\<open>DNSQuestResolver._iterative_resolve(qname, qtype, nameservers)\<close>, queries the
  servers of a list in order and, for each response, returns it, re-enters itself
  (for a CNAME target, for glue addresses, for the addresses of NS names) or raises.

  The embedding is shallow: every Python function and loop is a HOL function of the
  same name, exceptions are values of the type \<open>error\<close>, and the dnspython library
  (which builds, sends and parses the messages) is a parameter of the model.
\<close>

subsection \<open>Data\<close>

text \<open>
  A \<^verbatim>\<open>dns.name.Name\<close> is modelled by its text (what \<^verbatim>\<open>str\<close> gives), a server
  address by its text as well.
\<close>

type_synonym name = string
type_synonym addr = string

text \<open>\<^verbatim>\<open>dns.rdatatype\<close>: the four types the engine compares with, and all others.\<close>

datatype rdatatype = A | NS | CNAME | SOA | OtherType nat

text \<open>\<^verbatim>\<open>dns.rcode\<close>: the engine only compares with \<^verbatim>\<open>NXDOMAIN\<close>.\<close>

datatype rcode = NOERROR | NXDOMAIN | OtherRcode nat

text \<open>
  An rrset of a parsed message: its type decides what its records carry, an
  \<^verbatim>\<open>address\<close> (type A) or a \<^verbatim>\<open>target\<close> (types NS and CNAME). Owner name and TTL
  are never read by the engine and are left out.
\<close>

datatype rrset =
    RRset_A "addr list"
  | RRset_NS "name list"
  | RRset_CNAME "name list"
  | RRset_SOA
  | RRset_Other nat

fun rdtype :: "rrset \<Rightarrow> rdatatype" where
  "rdtype (RRset_A _) = A"
| "rdtype (RRset_NS _) = NS"
| "rdtype (RRset_CNAME _) = CNAME"
| "rdtype RRset_SOA = SOA"
| "rdtype (RRset_Other k) = OtherType k"

text \<open>\<^verbatim>\<open>[rr.address for rr in rrset]\<close>, read only from rrsets of type A.\<close>

fun addresses :: "rrset \<Rightarrow> addr list" where
  "addresses (RRset_A as) = as"
| "addresses _ = []"

text \<open>\<^verbatim>\<open>[rr.target for rr in rrset]\<close>, read only from rrsets of type NS or CNAME.\<close>

fun targets :: "rrset \<Rightarrow> name list" where
  "targets (RRset_NS ts) = ts"
| "targets (RRset_CNAME ts) = ts"
| "targets _ = []"

text \<open>\<^verbatim>\<open>dns.message.Message\<close>, as far as the engine reads it.\<close>

record response =
  rcode :: rcode
  answer :: "rrset list"
  authority :: "rrset list"
  additional :: "rrset list"

text \<open>
  The exceptions of \<^verbatim>\<open>resolver.py\<close>, each with its message, and every other Python
  exception (\<^verbatim>\<open>IndexError\<close>, an exception of the library).
\<close>

datatype error =
    NXDomainError string
  | TimeoutError string
  | NoRecordError string
  | DNSResolutionError string
  | OtherException string

text \<open>\<^verbatim>\<open>str(e)\<close>.\<close>

fun str :: "error \<Rightarrow> string" where
  "str (NXDomainError m) = m"
| "str (TimeoutError m) = m"
| "str (NoRecordError m) = m"
| "str (DNSResolutionError m) = m"
| "str (OtherException m) = m"

text \<open>
  What \<^verbatim>\<open>dns.query.udp(dns.message.make_query(qname, qtype, IN), ns, timeout=5)\<close>
  does: it returns a parsed response, raises \<^verbatim>\<open>dns.exception.Timeout\<close>, or raises
  another exception.
\<close>

datatype reply = Response response | Timeout | TransportError

text \<open>
  The library: the transport, and \<^verbatim>\<open>dns.name.from_text\<close>, which returns a name or
  raises (\<open>Inl\<close>, with the message). The transport is a function: the servers are
  deterministic, the same query to the same server has the same reply.
\<close>

record dnslib =
  udp :: "name \<Rightarrow> rdatatype \<Rightarrow> addr \<Rightarrow> reply"
  from_text :: "string \<Rightarrow> string + name"

text \<open>
  The outcome of a call of the engine: an exception or the response. The loops
  below take the engine they re-enter as a parameter, a function that may have no
  value (\<open>None\<close>, a call that does not return); the engine of the program is then
  defined from them, and it always returns.
\<close>

type_synonym outcome = "error + response"
type_synonym engine = "name \<Rightarrow> rdatatype \<Rightarrow> addr list \<Rightarrow> outcome option"

text \<open>
  How the body of the \<^verbatim>\<open>try\<close> block ends for one server: the function returns, an
  exception is raised, or the body is left at its end and the loop goes on.
\<close>

datatype flow = Return response | Raise error | Fallthrough

fun flow_of :: "outcome \<Rightarrow> flow" where
  "flow_of (Inl e) = Raise e"
| "flow_of (Inr r) = Return r"

subsection \<open>The root servers\<close>

definition ROOT_SERVERS :: "addr list" where
  "ROOT_SERVERS =
    [''198.41.0.4'', ''170.247.170.2'', ''192.33.4.12'', ''199.7.91.13'',
     ''192.203.230.10'', ''192.5.5.241'', ''192.112.36.4'', ''198.97.190.53'',
     ''192.36.148.17'', ''192.58.128.30'', ''193.0.14.129'', ''199.7.83.42'',
     ''202.12.27.33'']"

subsection \<open>The engine\<close>

text \<open>
  Lines 91 to 99, the loop over the answer section (over an empty section it does
  nothing, as the guard \<^verbatim>\<open>if response.answer\<close> says):
  \<^verbatim>\<open>
  for rrset in response.answer:
      if rrset.rdtype == dns.rdatatype.CNAME:
          cname_target = rrset[0].target
          return self._iterative_resolve(cname_target, qtype, self.ROOT_SERVERS)
      elif rrset.rdtype == qtype:
          return response
  \<close>
  \<^verbatim>\<open>rrset[0]\<close> of an rrset without records raises \<^verbatim>\<open>IndexError\<close>.
\<close>

fun answer_loop :: "engine \<Rightarrow> rdatatype \<Rightarrow> response \<Rightarrow> rrset list \<Rightarrow> flow option" where
  "answer_loop self qtype resp [] = Some Fallthrough"
| "answer_loop self qtype resp (rrset # rest) =
    (if rdtype rrset = CNAME then
       (case targets rrset of
          [] \<Rightarrow> Some (Raise (OtherException ''list index out of range''))
        | cname_target # _ \<Rightarrow> map_option flow_of (self cname_target qtype ROOT_SERVERS))
     else if rdtype rrset = qtype then Some (Return resp)
     else answer_loop self qtype resp rest)"

text \<open>
  Lines 104 to 106 and 136 to 140, the two loops that collect the addresses of the
  rrsets of type A of a section into \<^verbatim>\<open>next_servers\<close>:
  \<^verbatim>\<open>
  for rrset in section:
      if rrset.rdtype == dns.rdatatype.A:
          next_servers.extend([rr.address for rr in rrset])
  \<close>
\<close>

fun extend_addresses :: "rrset list \<Rightarrow> addr list \<Rightarrow> addr list" where
  "extend_addresses [] next_servers = next_servers"
| "extend_addresses (rrset # rest) next_servers =
    (if rdtype rrset = A then extend_addresses rest (next_servers @ addresses rrset)
     else extend_addresses rest next_servers)"

text \<open>
  Lines 116 to 124, the loop over the authority section:
  \<^verbatim>\<open>
  for rrset in response.authority:
      if rrset.rdtype == dns.rdatatype.NS:
          ns_records_found = True
          ns_names.extend([str(rr.target) for rr in rrset])
      elif rrset.rdtype == dns.rdatatype.SOA:
          if not ns_records_found and qtype == dns.rdatatype.A:
              raise NoRecordError(f"No A record found for {qname}")
  \<close>
\<close>

fun authority_loop ::
  "name \<Rightarrow> rdatatype \<Rightarrow> rrset list \<Rightarrow> string list \<Rightarrow> bool \<Rightarrow> error + string list" where
  "authority_loop qname qtype [] ns_names ns_records_found = Inr ns_names"
| "authority_loop qname qtype (rrset # rest) ns_names ns_records_found =
    (if rdtype rrset = NS then
       authority_loop qname qtype rest (ns_names @ targets rrset) True
     else if rdtype rrset = SOA then
       (if \<not> ns_records_found \<and> qtype = A then
          Inl (NoRecordError (''No A record found for '' @ qname))
        else authority_loop qname qtype rest ns_names ns_records_found)
     else authority_loop qname qtype rest ns_names ns_records_found)"

text \<open>
  Lines 128 to 145, the loop over the names of the referral. Every exception of a
  sub-resolution, and of \<^verbatim>\<open>dns.name.from_text\<close>, ends in \<^verbatim>\<open>continue\<close>:
  \<^verbatim>\<open>
  for ns_name in ns_names:
      try:
          ns_response = self._iterative_resolve(
              dns.name.from_text(ns_name), dns.rdatatype.A, self.ROOT_SERVERS)
          if ns_response and ns_response.answer:
              for rrset in ns_response.answer: ...
      except (NXDomainError, TimeoutError, NoRecordError):
          continue
      except Exception:
          continue
  \<close>
\<close>

fun ns_loop :: "engine \<Rightarrow> dnslib \<Rightarrow> string list \<Rightarrow> addr list \<Rightarrow> addr list option" where
  "ns_loop self lib [] next_servers = Some next_servers"
| "ns_loop self lib (ns_name # rest) next_servers =
    (case from_text lib ns_name of
       Inl _ \<Rightarrow> ns_loop self lib rest next_servers
     | Inr n \<Rightarrow>
        (case self n A ROOT_SERVERS of
           None \<Rightarrow> None
         | Some (Inl _) \<Rightarrow> ns_loop self lib rest next_servers
         | Some (Inr ns_response) \<Rightarrow>
             ns_loop self lib rest (extend_addresses (answer ns_response) next_servers)))"

text \<open>
  Lines 86 to 153, the body of the \<^verbatim>\<open>try\<close> block once the response is there: the
  status, the answer section, the glue of the additional section, the authority
  section.
\<close>

definition try_body :: "engine \<Rightarrow> dnslib \<Rightarrow> name \<Rightarrow> rdatatype \<Rightarrow> response \<Rightarrow> flow option" where
  "try_body self lib qname qtype resp =
    (if rcode resp = NXDOMAIN then
       Some (Raise (NXDomainError (''Domain '' @ qname @ '' does not exist (NXDOMAIN)'')))
     else
       (case answer_loop self qtype resp (answer resp) of
          None \<Rightarrow> None
        | Some (Return r) \<Rightarrow> Some (Return r)
        | Some (Raise e) \<Rightarrow> Some (Raise e)
        | Some Fallthrough \<Rightarrow>
           (let next_servers = extend_addresses (additional resp) [] in
            if next_servers \<noteq> [] then map_option flow_of (self qname qtype next_servers)
            else
              (case authority_loop qname qtype (authority resp) [] False of
                 Inl e \<Rightarrow> Some (Raise e)
               | Inr ns_names \<Rightarrow>
                  (if ns_names \<noteq> [] then
                     (case ns_loop self lib ns_names [] of
                        None \<Rightarrow> None
                      | Some next_servers' \<Rightarrow>
                         (if next_servers' \<noteq> [] then
                            map_option flow_of (self qname qtype next_servers')
                          else
                            Some (Raise (NoRecordError
                              (''Found NS records but could not resolve any nameserver IPs for ''
                                 @ qname)))))
                   else Some Fallthrough)))))"

text \<open>
  Lines 171 to 182, after the loop over the servers:
  \<^verbatim>\<open>
  if last_timeout_error and successful_responses == 0:
      raise last_timeout_error
  if successful_responses > 0:
      raise NoRecordError(f"No A or NS records found for {qname}")
  raise DNSResolutionError(f"Unable to resolve domain {qname}: all nameservers failed")
  \<close>
\<close>

definition exhausted :: "name \<Rightarrow> error option \<Rightarrow> nat \<Rightarrow> error" where
  "exhausted qname last_timeout_error successful_responses =
    (if last_timeout_error \<noteq> None \<and> successful_responses = 0 then the last_timeout_error
     else if successful_responses > 0 then
       NoRecordError (''No A or NS records found for '' @ qname)
     else
       DNSResolutionError
         (''Unable to resolve domain '' @ qname @ '': all nameservers failed''))"

text \<open>
  The handler \<^verbatim>\<open>except (NXDomainError, NoRecordError): raise\<close> of line 164; every
  other exception of the body reaches \<^verbatim>\<open>except Exception: continue\<close>, also the
  \<^verbatim>\<open>TimeoutError\<close> of this module, which is not a \<^verbatim>\<open>dns.exception.Timeout\<close>.
\<close>

fun reraised :: "error \<Rightarrow> bool" where
  "reraised (NXDomainError _) = True"
| "reraised (NoRecordError _) = True"
| "reraised _ = False"

text \<open>Lines 80 to 169, the loop over the servers, with its two counters.\<close>

fun server_loop ::
  "engine \<Rightarrow> dnslib \<Rightarrow> name \<Rightarrow> rdatatype \<Rightarrow> addr list \<Rightarrow> error option \<Rightarrow> nat \<Rightarrow> outcome option"
where
  "server_loop self lib qname qtype [] last_timeout_error successful_responses =
     Some (Inl (exhausted qname last_timeout_error successful_responses))"
| "server_loop self lib qname qtype (ns # rest) last_timeout_error successful_responses =
    (case udp lib qname qtype ns of
       Timeout \<Rightarrow>
         server_loop self lib qname qtype rest
           (Some (TimeoutError (''DNS query timed out for '' @ qname @ '' at server '' @ ns)))
           successful_responses
     | TransportError \<Rightarrow>
         server_loop self lib qname qtype rest last_timeout_error successful_responses
     | Response resp \<Rightarrow>
        (case try_body self lib qname qtype resp of
           None \<Rightarrow> None
         | Some (Return r) \<Rightarrow> Some (Inr r)
         | Some (Raise e) \<Rightarrow>
            (if reraised e then Some (Inl e)
             else server_loop self lib qname qtype rest last_timeout_error
                    (successful_responses + 1))
         | Some Fallthrough \<Rightarrow>
             server_loop self lib qname qtype rest last_timeout_error
               (successful_responses + 1)))"

text \<open>
  \<^verbatim>\<open>_iterative_resolve\<close>. The program never counts or limits the depth of its
  recursion; what bounds it is the recursion limit of the interpreter, whose
  \<^verbatim>\<open>RecursionError\<close> is an \<^verbatim>\<open>Exception\<close> like any other for the handlers of the
  program (lines 144, 167 and 73). The first argument is the number of levels the
  call stack still has room for: with room for \<open>Suc n\<close> levels the loop runs and
  every re-entry has room for \<open>n\<close>; a call with no room raises \<^verbatim>\<open>RecursionError\<close>.
  (A level with room for itself but not for the calls of the library ends the same
  way for its caller: every query fails and the level raises the generic
  \<^verbatim>\<open>DNSResolutionError\<close>, which the caller's handlers treat as they treat
  \<^verbatim>\<open>RecursionError\<close>.)
\<close>

primrec iterative_resolve :: "nat \<Rightarrow> dnslib \<Rightarrow> engine" where
  "iterative_resolve 0 lib =
    (\<lambda>qname qtype nameservers.
       Some (Inl (OtherException ''maximum recursion depth exceeded'')))"
| "iterative_resolve (Suc n) lib =
    (\<lambda>qname qtype nameservers.
       server_loop (iterative_resolve n lib) lib qname qtype nameservers None 0)"

subsection \<open>The entry point\<close>

text \<open>\<^verbatim>\<open>s.endswith(".")\<close>.\<close>

definition endswith_dot :: "string \<Rightarrow> bool" where
  "endswith_dot s = (s \<noteq> [] \<and> last s = CHR ''.'')"

text \<open>Lines 60 and 61: \<^verbatim>\<open>if not domain.endswith("."): domain += "."\<close>.\<close>

definition qualify :: "string \<Rightarrow> string" where
  "qualify domain = (if \<not> endswith_dot domain then domain @ ''.'' else domain)"

text \<open>
  \<^verbatim>\<open>resolve\<close>, lines 57 to 74. \<^verbatim>\<open>dns.name.from_text\<close> is called before the
  \<^verbatim>\<open>try\<close>, so its exception leaves \<^verbatim>\<open>resolve\<close> as it is; the three named exceptions of
  the engine are raised again and any other is wrapped.
\<close>

definition resolve :: "nat \<Rightarrow> dnslib \<Rightarrow> string \<Rightarrow> outcome option" where
  "resolve n lib domain =
    (let domain' = qualify domain in
     case from_text lib domain' of
       Inl m \<Rightarrow> Some (Inl (OtherException m))
     | Inr domain_name \<Rightarrow>
        (case iterative_resolve n lib domain_name A ROOT_SERVERS of
           None \<Rightarrow> None
         | Some (Inr final_answer) \<Rightarrow> Some (Inr final_answer)
         | Some (Inl e) \<Rightarrow>
            (case e of
               NXDomainError _ \<Rightarrow> Some (Inl e)
             | TimeoutError _ \<Rightarrow> Some (Inl e)
             | NoRecordError _ \<Rightarrow> Some (Inl e)
             | _ \<Rightarrow> Some (Inl (DNSResolutionError
                        (''Failed to resolve '' @ domain' @ '': '' @ str e))))))"

subsection \<open>Notions the properties are stated with\<close>

text \<open>The answer section of a response holds an rrset of the type \<open>t\<close>.\<close>

definition has_type :: "rdatatype \<Rightarrow> response \<Rightarrow> bool" where
  "has_type t r = (\<exists>rs \<in> set (answer r). rdtype rs = t)"

text \<open>
  No usable answer: the loop over these rrsets of the answer section neither returns
  nor re-enters, because none of them is a CNAME or of the requested type.
\<close>

definition no_usable_answer :: "rdatatype \<Rightarrow> rrset list \<Rightarrow> bool" where
  "no_usable_answer qtype section =
     (\<forall>rs \<in> set section. rdtype rs \<noteq> CNAME \<and> rdtype rs \<noteq> qtype)"

text \<open>The addresses of the rrsets of type A of a section, in the order of the section.\<close>

definition a_addresses :: "rrset list \<Rightarrow> addr list" where
  "a_addresses section = concat (map addresses (filter (\<lambda>rs. rdtype rs = A) section))"

text \<open>
  A classified outcome: a response, or one of the four exceptions of the module
  (not an exception of the interpreter or of the library).
\<close>

fun classified :: "outcome \<Rightarrow> bool" where
  "classified (Inr _) = True"
| "classified (Inl (OtherException _)) = False"
| "classified (Inl _) = True"

text \<open>The server answered the query with a response (of any content).\<close>

definition responded :: "dnslib \<Rightarrow> name \<Rightarrow> rdatatype \<Rightarrow> addr \<Rightarrow> bool" where
  "responded lib qname qtype ns =
     (case udp lib qname qtype ns of Response _ \<Rightarrow> True | _ \<Rightarrow> False)"

text \<open>
  The server is not decisive: after it the loop over the servers goes on. The query
  timed out or failed, or the body of the \<^verbatim>\<open>try\<close> block was left at its end or by an
  exception that the loop does not raise again.
\<close>

definition nondecisive :: "engine \<Rightarrow> dnslib \<Rightarrow> name \<Rightarrow> rdatatype \<Rightarrow> addr \<Rightarrow> bool" where
  "nondecisive self lib qname qtype ns =
     (case udp lib qname qtype ns of
        Timeout \<Rightarrow> True
      | TransportError \<Rightarrow> True
      | Response resp \<Rightarrow>
         (case try_body self lib qname qtype resp of
            Some Fallthrough \<Rightarrow> True
          | Some (Raise e) \<Rightarrow> \<not> reraised e
          | _ \<Rightarrow> False))"

text \<open>The sub-resolution of one NS name ends in an exception.\<close>

definition sub_fails :: "engine \<Rightarrow> dnslib \<Rightarrow> string \<Rightarrow> bool" where
  "sub_fails self lib ns_name =
     (case from_text lib ns_name of
        Inl _ \<Rightarrow> True
      | Inr n \<Rightarrow> (case self n A ROOT_SERVERS of Some (Inl _) \<Rightarrow> True | _ \<Rightarrow> False))"

text \<open>
  A path of the resolution of \<open>qname\<close> on the servers \<open>nameservers\<close>, with room for
  \<open>n\<close> levels, that ends at a queried server whose response has the status
  NXDOMAIN. That server is the first of the list (whatever follows it); or the
  first server sends the engine on, by a CNAME (line 95), by glue (line 109) or by
  the addresses found for the names of a referral (line 148), to a list with such a
  path; or the first server is not decisive and the rest of the list holds such a
  path. A sub-resolution of an NS name (line 130) is not among the steps. The last
  argument is the message of the exception raised where the path ends.
\<close>

inductive reaches_nx ::
  "dnslib \<Rightarrow> nat \<Rightarrow> name \<Rightarrow> rdatatype \<Rightarrow> addr list \<Rightarrow> string \<Rightarrow> bool"
  for lib :: dnslib where
  direct:
    "udp lib qname qtype ns = Response resp \<Longrightarrow> rcode resp = NXDOMAIN \<Longrightarrow>
     reaches_nx lib (Suc n) qname qtype (ns # rest)
       (''Domain '' @ qname @ '' does not exist (NXDOMAIN)'')"
| cname_chase:
    "udp lib qname qtype ns = Response resp \<Longrightarrow> rcode resp \<noteq> NXDOMAIN \<Longrightarrow>
     answer resp = before @ RRset_CNAME (cname_target # others) # after \<Longrightarrow>
     no_usable_answer qtype before \<Longrightarrow>
     reaches_nx lib n cname_target qtype ROOT_SERVERS m \<Longrightarrow>
     reaches_nx lib (Suc n) qname qtype (ns # rest) m"
| glue_hop:
    "udp lib qname qtype ns = Response resp \<Longrightarrow> rcode resp \<noteq> NXDOMAIN \<Longrightarrow>
     no_usable_answer qtype (answer resp) \<Longrightarrow> a_addresses (additional resp) \<noteq> [] \<Longrightarrow>
     reaches_nx lib n qname qtype (a_addresses (additional resp)) m \<Longrightarrow>
     reaches_nx lib (Suc n) qname qtype (ns # rest) m"
| referral_hop:
    "udp lib qname qtype ns = Response resp \<Longrightarrow> rcode resp \<noteq> NXDOMAIN \<Longrightarrow>
     no_usable_answer qtype (answer resp) \<Longrightarrow> a_addresses (additional resp) = [] \<Longrightarrow>
     authority_loop qname qtype (authority resp) [] False = Inr ns_names \<Longrightarrow>
     ns_loop (iterative_resolve n lib) lib ns_names [] = Some next_servers \<Longrightarrow>
     reaches_nx lib n qname qtype next_servers m \<Longrightarrow>
     reaches_nx lib (Suc n) qname qtype (ns # rest) m"
| next_server:
    "nondecisive (iterative_resolve n lib) lib qname qtype ns \<Longrightarrow>
     reaches_nx lib (Suc n) qname qtype rest m \<Longrightarrow>
     reaches_nx lib (Suc n) qname qtype (ns # rest) m"

code_pred reaches_nx .

subsection \<open>A small network to run the engine on\<close>

text \<open>
  The first root server refers every name to a server of the top-level domain, that
  one to the server of \<^verbatim>\<open>example.com\<close>, each with glue; the root servers have no
  answer for \<^verbatim>\<open>ns.lost.\<close>. The server of \<^verbatim>\<open>example.com\<close> knows a handful of names.
  Three more addresses fail, answer with nothing and deny every name; every other
  address times out.
\<close>

definition noerror :: "rrset list \<Rightarrow> rrset list \<Rightarrow> rrset list \<Rightarrow> reply" where
  "noerror an au ad =
     Response \<lparr>rcode = NOERROR, answer = an, authority = au, additional = ad\<rparr>"

definition example_udp :: "name \<Rightarrow> rdatatype \<Rightarrow> addr \<Rightarrow> reply" where
  "example_udp qname qtype ns =
    (if ns = ''198.41.0.4'' then
       (if qname = ''ns.lost.'' then Timeout
        else noerror [] [RRset_NS [''a.gtld-servers.net.'']] [RRset_A [''192.5.6.30'']])
     else if ns = ''192.5.6.30'' then
       noerror [] [RRset_NS [''ns1.example.com.'']] [RRset_A [''10.0.0.1'']]
     else if ns = ''10.0.0.1'' then
       (if qname = ''example.com.'' then noerror [RRset_A [''93.184.216.34'']] [] []
        else if qname = ''alias.example.com.'' then
          noerror [RRset_CNAME [''gone.example.com.''], RRset_A [''93.184.216.34'']] [] []
        else if qname = ''rev.example.com.'' then
          noerror [RRset_A [''93.184.216.34''], RRset_CNAME [''gone.example.com.'']] [] []
        else if qname = ''nodata.example.com.'' then noerror [] [RRset_SOA] []
        else if qname = ''mixed.example.com.'' then
          noerror [] [RRset_SOA, RRset_NS [''ns1.example.com.'']] []
        else if qname = ''lame.example.com.'' then noerror [] [RRset_NS [''ns.lost.'']] []
        else if qname = ''orphan.example.com.'' then
          noerror [] [RRset_NS [''ns.gone.example.com.'']] []
        else if qname = ''deleg.example.com.'' then
          noerror [] [RRset_NS [''ns1.example.com.'']] []
        else if qname = ''ns1.example.com.'' then noerror [RRset_A [''10.0.0.4'']] [] []
        else Response \<lparr>rcode = NXDOMAIN, answer = [], authority = [RRset_SOA],
               additional = []\<rparr>)
     else if ns = ''10.0.0.2'' then TransportError
     else if ns = ''10.0.0.3'' then noerror [] [] []
     else if ns = ''10.0.0.4'' then
       Response \<lparr>rcode = NXDOMAIN, answer = [], authority = [RRset_SOA], additional = []\<rparr>
     else Timeout)"

definition example_lib :: dnslib where
  "example_lib = \<lparr>udp = example_udp, from_text = Inr\<rparr>"

text \<open>
  A network in which every server answers every query with a CNAME to \<^verbatim>\<open>a.\<close>, and
  one in which the last root server has the address instead.
\<close>

definition cname_cycle_lib :: dnslib where
  "cname_cycle_lib =
     \<lparr>udp = (\<lambda>qname qtype ns. noerror [RRset_CNAME [''a.'']] [] []), from_text = Inr\<rparr>"

definition cycle_then_answer_lib :: dnslib where
  "cycle_then_answer_lib =
     \<lparr>udp = (\<lambda>qname qtype ns.
         if ns = ''202.12.27.33'' then noerror [RRset_A [''93.184.216.34'']] [] []
         else noerror [RRset_CNAME [''a.'']] [] []),
      from_text = Inr\<rparr>"

section \<open>Properties\<close>

subsection \<open>Basic facts about the loops\<close>

lemma flow_of_eq_Return [simp]: "flow_of z = Return r \<longleftrightarrow> z = Inr r"
  by (cases z) auto

lemma flow_of_eq_Raise [simp]: "flow_of z = Raise e \<longleftrightarrow> z = Inl e"
  by (cases z) auto

lemma flow_of_ne_Fallthrough [simp]: "flow_of z \<noteq> Fallthrough"
  by (cases z) auto

lemma map_flow_of_Return: "map_option flow_of x = Some (Return r) \<Longrightarrow> x = Some (Inr r)"
  by (cases x) auto

text \<open>The two loops over a section collect the addresses of its rrsets of type A.\<close>

lemma extend_addresses_eq: "extend_addresses rs acc = acc @ a_addresses rs"
  by (induction rs arbitrary: acc) (auto simp: a_addresses_def)

lemma a_addresses_nonempty:
  "a_addresses rs \<noteq> [] \<longleftrightarrow> (\<exists>x \<in> set rs. rdtype x = A \<and> addresses x \<noteq> [])"
  by (auto simp: a_addresses_def)

text \<open>Rrsets that are neither a CNAME nor of the requested type are passed over.\<close>

lemma answer_loop_skip:
  "no_usable_answer qtype before \<Longrightarrow>
   answer_loop self qtype resp (before @ rs) = answer_loop self qtype resp rs"
  by (induction before) (auto simp: no_usable_answer_def)

lemma answer_loop_no_usable:
  "no_usable_answer qtype rs \<Longrightarrow> answer_loop self qtype resp rs = Some Fallthrough"
  using answer_loop_skip [of qtype rs self resp "[]"] by simp

lemma try_body_glue:
  assumes "rcode resp \<noteq> NXDOMAIN" and "no_usable_answer qtype (answer resp)"
    and "a_addresses (additional resp) \<noteq> []"
  shows "try_body self lib qname qtype resp =
         map_option flow_of (self qname qtype (a_addresses (additional resp)))"
  using assms by (simp add: try_body_def answer_loop_no_usable extend_addresses_eq)

subsection \<open>Running the example network\<close>

lemmas example_defs = example_lib_def example_udp_def noerror_def ROOT_SERVERS_def
  try_body_def exhausted_def

lemma example_from_text: "from_text example_lib = Inr"
  by (simp add: example_lib_def)

lemma example_udp_lib: "udp example_lib = example_udp"
  by (simp add: example_lib_def)

lemmas example_eval = example_udp_lib example_from_text example_udp_def noerror_def
  ROOT_SERVERS_def try_body_def exhausted_def

lemma example_resolution:
  "iterative_resolve 3 example_lib ''example.com.'' A ROOT_SERVERS =
     Some (Inr \<lparr>rcode = NOERROR, answer = [RRset_A [''93.184.216.34'']],
                 authority = [], additional = []\<rparr>)"
  by (simp add: example_defs numeral_3_eq_3)

lemma ns_lost_times_out:
  "iterative_resolve 1 example_lib ''ns.lost.'' A ROOT_SERVERS =
     Some (Inl (TimeoutError ''DNS query timed out for ns.lost. at server 202.12.27.33''))"
  by (simp add: example_defs)

subsection \<open>Recursion depth\<close>

text \<open>Every loop ends: a level has no value only if a re-entry has none.\<close>

lemma answer_loop_None:
  "answer_loop self t resp rs = None \<Longrightarrow> \<exists>q t s. self q t s = None"
  by (induction rs) (auto split: if_splits list.splits)

lemma ns_loop_None:
  "ns_loop self lib names acc = None \<Longrightarrow> \<exists>q t s. self q t s = None"
  by (induction names arbitrary: acc) (auto split: sum.splits option.splits)

lemma try_body_None:
  "try_body self lib q t resp = None \<Longrightarrow> \<exists>q t s. self q t s = None"
  by (auto simp: try_body_def Let_def
      split: if_splits option.splits flow.splits sum.splits
      dest: answer_loop_None ns_loop_None)

lemma server_loop_None:
  "server_loop self lib q t nss lt sr = None \<Longrightarrow> \<exists>q t s. self q t s = None"
proof (induction nss arbitrary: lt sr)
  case Nil
  then show ?case by simp
next
  case (Cons ns rest)
  then show ?case
    by (auto split: reply.splits option.splits flow.splits if_splits dest: try_body_None)
qed

lemma iterative_resolve_total: "iterative_resolve n lib q t nss \<noteq> None"
proof (induction n arbitrary: q t nss)
  case 0
  show ?case by simp
next
  case (Suc n)
  show ?case
  proof
    assume "iterative_resolve (Suc n) lib q t nss = None"
    then have "server_loop (iterative_resolve n lib) lib q t nss None 0 = None" by simp
    from server_loop_None [OF this] Suc.IH show False by blast
  qed
qed

text \<open>What a level raises is one of the four exceptions of the module.\<close>

lemma reraised_classified: "reraised e \<Longrightarrow> classified (Inl e)"
  by (cases e) simp_all

lemma server_loop_classified:
  assumes "server_loop self lib q t nss lt sr = Some out"
    and "lt = None \<or> (\<exists>x. lt = Some (TimeoutError x))"
  shows "classified out"
  using assms
proof (induction nss arbitrary: lt sr)
  case Nil
  then show ?case by (auto simp: exhausted_def split: if_splits)
next
  case (Cons ns rest)
  show ?case
  proof (cases "udp lib q t ns")
    case (Response resp)
    with Cons.prems(1) obtain f where f: "try_body self lib q t resp = Some f"
      by (auto split: option.splits)
    show ?thesis
    proof (cases f)
      case (Return r)
      with Response f Cons.prems(1) show ?thesis by auto
    next
      case (Raise e)
      with Response f Cons.prems Cons.IH show ?thesis
        by (auto split: if_splits dest: reraised_classified)
    next
      case Fallthrough
      with Response f Cons.prems Cons.IH show ?thesis by auto
    qed
  next
    case Timeout
    with Cons.prems(1) Cons.IH show ?thesis by auto
  next
    case TransportError
    with Cons.prems Cons.IH show ?thesis by auto
  qed
qed

text \<open>
  The two networks with a CNAME cycle, at every recursion limit. In the first the
  deepest level passes over every root server and raises \<^verbatim>\<open>NoRecordError\<close>, which
  every level above raises again; in the second the deepest level comes to the last
  root server and returns its response.
\<close>

lemma cname_cycle_level_one:
  "iterative_resolve (Suc 0) cname_cycle_lib ''a.'' t ROOT_SERVERS =
     Some (Inl (NoRecordError ''No A or NS records found for a.''))"
  by (simp add: cname_cycle_lib_def noerror_def try_body_def ROOT_SERVERS_def exhausted_def)

lemma cname_cycle_outcome:
  "iterative_resolve (Suc (Suc n)) cname_cycle_lib q t (ns # rest) =
     Some (Inl (NoRecordError ''No A or NS records found for a.''))"
proof (induction n arbitrary: q t ns rest)
  case 0
  show ?case
    using cname_cycle_level_one [of t]
    by (simp add: cname_cycle_lib_def noerror_def try_body_def)
next
  case (Suc n)
  have "iterative_resolve (Suc (Suc n)) cname_cycle_lib ''a.'' t ROOT_SERVERS =
     Some (Inl (NoRecordError ''No A or NS records found for a.''))"
    unfolding ROOT_SERVERS_def by (rule Suc.IH)
  then show ?case
    by (simp add: cname_cycle_lib_def noerror_def try_body_def)
qed

lemma cycle_then_answer_outcome:
  "iterative_resolve (Suc n) cycle_then_answer_lib ''a.'' A ROOT_SERVERS =
     Some (Inr \<lparr>rcode = NOERROR, answer = [RRset_A [''93.184.216.34'']],
                 authority = [], additional = []\<rparr>)"
proof (induction n)
  case 0
  show ?case
    by (simp add: cycle_then_answer_lib_def noerror_def try_body_def ROOT_SERVERS_def)
next
  case (Suc n)
  then show ?case
    by (simp add: cycle_then_answer_lib_def noerror_def try_body_def ROOT_SERVERS_def)
qed

text \<open>
  Claim C1 says that the recursion depth is bounded by an enforced limit and that,
  for every input whose resolution would exceed the bound, the engine raises a
  terminal classified failure. The program has no limit of its own, and the
  \<^verbatim>\<open>RecursionError\<close> of the interpreter is not terminal for it: the handler of line
  167 takes it for a failed server and the loop goes on. In the network where every
  root server but the last answers with a CNAME to \<^verbatim>\<open>a.\<close>, the resolution of \<^verbatim>\<open>a.\<close>
  re-enters itself from the first root server until the limit (1000, the default of
  the interpreter) is exceeded, and then returns the response of the last root
  server as a success.
\<close>

theorem limit_exceeded_then_answer:
  "udp cycle_then_answer_lib ''a.'' A ''198.41.0.4'' =
     Response \<lparr>rcode = NOERROR, answer = [RRset_CNAME [''a.'']],
       authority = [], additional = []\<rparr> \<and>
   iterative_resolve 0 cycle_then_answer_lib ''a.'' A ROOT_SERVERS =
     Some (Inl (OtherException ''maximum recursion depth exceeded'')) \<and>
   iterative_resolve 1000 cycle_then_answer_lib ''a.'' A ROOT_SERVERS =
     Some (Inr \<lparr>rcode = NOERROR, answer = [RRset_A [''93.184.216.34'']],
                 authority = [], additional = []\<rparr>) \<and>
   resolve 1000 cycle_then_answer_lib ''a'' =
     Some (Inr \<lparr>rcode = NOERROR, answer = [RRset_A [''93.184.216.34'']],
                 authority = [], additional = []\<rparr>)"
proof -
  have k: "(1000::nat) = Suc 999" by simp
  have e: "iterative_resolve 1000 cycle_then_answer_lib ''a.'' A ROOT_SERVERS =
     Some (Inr \<lparr>rcode = NOERROR, answer = [RRset_A [''93.184.216.34'']],
                 authority = [], additional = []\<rparr>)"
    unfolding k by (rule cycle_then_answer_outcome)
  have f: "from_text cycle_then_answer_lib = Inr"
    by (simp add: cycle_then_answer_lib_def)
  have u: "udp cycle_then_answer_lib ''a.'' A ''198.41.0.4'' =
     Response \<lparr>rcode = NOERROR, answer = [RRset_CNAME [''a.'']],
       authority = [], additional = []\<rparr>"
    by (simp add: cycle_then_answer_lib_def noerror_def)
  have r: "resolve 1000 cycle_then_answer_lib ''a'' =
     Some (Inr \<lparr>rcode = NOERROR, answer = [RRset_A [''93.184.216.34'']],
                 authority = [], additional = []\<rparr>)"
    by (simp add: resolve_def qualify_def endswith_dot_def f e)
  from u e r show ?thesis by simp
qed

text \<open>
  Claim C1, as the code has it. Under the recursion limit of the interpreter the
  engine is total for every behaviour of the transport, cyclic CNAME and referral
  responses included: it returns a response or raises, and with room for at least
  one level what it raises is one of the four exceptions of the module. The program
  enforces no limit of its own, and exceeding the interpreter's limit is not a
  terminal failure: a level passes over a server whose re-entry raised
  \<^verbatim>\<open>RecursionError\<close> (or any exception other than \<^verbatim>\<open>NXDomainError\<close> and
  \<^verbatim>\<open>NoRecordError\<close>) and goes on with the next one, counting it as a response.
\<close>

theorem engine_total:
  "(\<exists>out. iterative_resolve n lib qname qtype nameservers = Some out \<and>
          (0 < n \<longrightarrow> classified out)) \<and>
   (udp lib qname qtype ns = Response resp \<and>
    try_body self lib qname qtype resp = Some (Raise (OtherException x)) \<longrightarrow>
      server_loop self lib qname qtype (ns # rest) lt sr =
      server_loop self lib qname qtype rest lt (sr + 1))"
proof -
  obtain out where out: "iterative_resolve n lib qname qtype nameservers = Some out"
    using iterative_resolve_total [of n lib qname qtype nameservers] by auto
  have "classified out" if "0 < n"
  proof -
    from that obtain k where "n = Suc k" by (cases n) auto
    with out have "server_loop (iterative_resolve k lib) lib qname qtype nameservers None 0 =
        Some out" by simp
    then show ?thesis by (rule server_loop_classified) simp
  qed
  with out show ?thesis by simp
qed

theorem engine_total_witness:
  "(0::nat) < 1000 \<and>
   iterative_resolve 1000 cname_cycle_lib ''a.'' A ROOT_SERVERS =
     Some (Inl (NoRecordError ''No A or NS records found for a.'')) \<and>
   classified (Inl (NoRecordError ''No A or NS records found for a.'')) \<and>
   udp cname_cycle_lib ''a.'' A ''198.41.0.4'' =
     Response \<lparr>rcode = NOERROR, answer = [RRset_CNAME [''a.'']],
       authority = [], additional = []\<rparr> \<and>
   try_body (iterative_resolve 0 cname_cycle_lib) cname_cycle_lib ''a.'' A
       \<lparr>rcode = NOERROR, answer = [RRset_CNAME [''a.'']],
          authority = [], additional = []\<rparr> =
     Some (Raise (OtherException ''maximum recursion depth exceeded'')) \<and>
   server_loop (iterative_resolve 0 cname_cycle_lib) cname_cycle_lib ''a.'' A
       [''198.41.0.4'', ''170.247.170.2''] None 0 =
     server_loop (iterative_resolve 0 cname_cycle_lib) cname_cycle_lib ''a.'' A
       [''170.247.170.2''] None 1"
proof -
  let ?r = "\<lparr>rcode = NOERROR, answer = [RRset_CNAME [''a.'']],
          authority = [], additional = []\<rparr>"
  let ?self = "iterative_resolve 0 cname_cycle_lib"
  have k: "(1000::nat) = Suc (Suc 998)" by simp
  have c: "iterative_resolve 1000 cname_cycle_lib ''a.'' A ROOT_SERVERS =
     Some (Inl (NoRecordError ''No A or NS records found for a.''))"
    unfolding k ROOT_SERVERS_def by (rule cname_cycle_outcome)
  have u: "udp cname_cycle_lib ''a.'' A ''198.41.0.4'' = Response ?r"
    by (simp add: cname_cycle_lib_def noerror_def)
  have t: "try_body ?self cname_cycle_lib ''a.'' A ?r =
     Some (Raise (OtherException ''maximum recursion depth exceeded''))"
    by (simp add: try_body_def)
  note th = engine_total
    [of 1000 cname_cycle_lib "''a.''" A ROOT_SERVERS "''198.41.0.4''" ?r ?self
       "''maximum recursion depth exceeded''" "[''170.247.170.2'']" None 0]
  from th c have "classified (Inl (NoRecordError ''No A or NS records found for a.''))"
    by auto
  moreover from th u t
  have "server_loop ?self cname_cycle_lib ''a.'' A (''198.41.0.4'' # [''170.247.170.2''])
          None 0 =
        server_loop ?self cname_cycle_lib ''a.'' A [''170.247.170.2''] None (0 + 1)"
    by blast
  ultimately show ?thesis using c u t by simp
qed

subsection \<open>The answer section is read in order\<close>

text \<open>
  Claim C2 says that a record of the requested type in the answer section makes the
  engine return the response even when the section also holds a CNAME rrset, in
  whatever order. In the code the first rrset that is a CNAME or of the requested
  type decides, and the CNAME test comes first: the server of the example answers
  \<^verbatim>\<open>alias.example.com.\<close> with a CNAME rrset followed by an A rrset, and the engine
  chases the CNAME target from the root servers and raises \<^verbatim>\<open>NXDomainError\<close> for it.
\<close>

theorem cname_first_counterexample:
  "udp example_lib ''alias.example.com.'' A ''10.0.0.1'' =
     Response \<lparr>rcode = NOERROR,
       answer = [RRset_CNAME [''gone.example.com.''], RRset_A [''93.184.216.34'']],
       authority = [], additional = []\<rparr> \<and>
   has_type A \<lparr>rcode = NOERROR,
       answer = [RRset_CNAME [''gone.example.com.''], RRset_A [''93.184.216.34'']],
       authority = [], additional = []\<rparr> \<and>
   iterative_resolve 4 example_lib ''alias.example.com.'' A [''10.0.0.1''] =
     Some (Inl (NXDomainError ''Domain gone.example.com. does not exist (NXDOMAIN)''))"
  by (simp add: example_defs has_type_def eval_nat_numeral)

text \<open>
  Claim C2, as the code has it. When the status is not NXDOMAIN, the requested type is
  not CNAME, and an rrset of the requested type stands in the answer section with no
  CNAME rrset before it, the engine returns that response at once, whatever follows
  in the section and whatever servers remain.
\<close>

theorem requested_type_first:
  assumes "udp lib qname qtype ns = Response resp"
    and "rcode resp \<noteq> NXDOMAIN"
    and "answer resp = before @ rrset # after"
    and "\<forall>x \<in> set before. rdtype x \<noteq> CNAME"
    and "rdtype rrset = qtype"
    and "qtype \<noteq> CNAME"
  shows "server_loop self lib qname qtype (ns # rest) lt sr = Some (Inr resp)"
proof -
  have "answer_loop self qtype resp (before @ rrset # after) = Some (Return resp)"
    using assms(4) by (induction before) (use assms(5,6) in auto)
  with assms(1,2,3) show ?thesis by (simp add: try_body_def)
qed

theorem requested_type_first_witness:
  "udp example_lib ''rev.example.com.'' A ''10.0.0.1'' =
     Response \<lparr>rcode = NOERROR,
       answer = [RRset_A [''93.184.216.34''], RRset_CNAME [''gone.example.com.'']],
       authority = [], additional = []\<rparr> \<and>
   server_loop (iterative_resolve 0 example_lib) example_lib ''rev.example.com.'' A
       [''10.0.0.1'', ''10.0.0.2''] None 0 =
     Some (Inr \<lparr>rcode = NOERROR,
       answer = [RRset_A [''93.184.216.34''], RRset_CNAME [''gone.example.com.'']],
       authority = [], additional = []\<rparr>)"
proof -
  let ?r = "\<lparr>rcode = NOERROR,
       answer = [RRset_A [''93.184.216.34''], RRset_CNAME [''gone.example.com.'']],
       authority = [], additional = []\<rparr>"
  have u: "udp example_lib ''rev.example.com.'' A ''10.0.0.1'' = Response ?r"
    by (simp add: example_lib_def example_udp_def noerror_def)
  have "server_loop (iterative_resolve 0 example_lib) example_lib ''rev.example.com.'' A
       (''10.0.0.1'' # [''10.0.0.2'']) None 0 = Some (Inr ?r)"
    by (rule requested_type_first
          [where before = "[]" and rrset = "RRset_A [''93.184.216.34'']"
             and after = "[RRset_CNAME [''gone.example.com.'']]", OF u])
       simp_all
  with u show ?thesis by simp
qed

subsection \<open>SOA and NS in the authority section\<close>

text \<open>
  Claim C3 says that \<^verbatim>\<open>NoRecordError\<close> is raised at the authority section only when
  no NS rrset is anywhere in the section, and that an NS rrset in any position,
  before or after the SOA, leads to the referral. The loop tests
  \<^verbatim>\<open>ns_records_found\<close> when it meets the SOA, so the flag only knows the rrsets
  before it: for the authority section SOA, NS of \<^verbatim>\<open>mixed.example.com.\<close> the engine
  raises \<^verbatim>\<open>NoRecordError\<close>, and for the same two rrsets in the other order the loop
  ends with the NS name.
\<close>

theorem soa_before_ns_raises:
  "udp example_lib ''mixed.example.com.'' A ''10.0.0.1'' =
     Response \<lparr>rcode = NOERROR, answer = [],
       authority = [RRset_SOA, RRset_NS [''ns1.example.com.'']], additional = []\<rparr> \<and>
   iterative_resolve 1 example_lib ''mixed.example.com.'' A [''10.0.0.1''] =
     Some (Inl (NoRecordError ''No A record found for mixed.example.com.'')) \<and>
   authority_loop ''mixed.example.com.'' A [RRset_SOA, RRset_NS [''ns1.example.com.'']]
       [] False = Inl (NoRecordError ''No A record found for mixed.example.com.'') \<and>
   authority_loop ''mixed.example.com.'' A [RRset_NS [''ns1.example.com.''], RRset_SOA]
       [] False = Inr [''ns1.example.com.'']"
  by (simp add: example_defs)

subsection \<open>NXDOMAIN\<close>

text \<open>A path to a server that answers NXDOMAIN makes every level on it raise.\<close>

lemma reaches_nx_raises:
  assumes "reaches_nx lib n q t nss m"
  shows "\<exists>k. n = Suc k \<and>
           (\<forall>lt sr. server_loop (iterative_resolve k lib) lib q t nss lt sr =
              Some (Inl (NXDomainError m)))"
  using assms
proof (induction rule: reaches_nx.induct)
  case (direct qname qtype ns resp n rest)
  then show ?case by (simp add: try_body_def)
next
  case (cname_chase qname qtype ns resp before cname_target others after n m rest)
  then have "iterative_resolve n lib cname_target qtype ROOT_SERVERS =
      Some (Inl (NXDomainError m))" by auto
  then have "answer_loop (iterative_resolve n lib) qtype resp (answer resp) =
      Some (Raise (NXDomainError m))"
    unfolding cname_chase.hyps(3) answer_loop_skip [OF cname_chase.hyps(4)]
    by simp
  with cname_chase.hyps(1,2) show ?case by (simp add: try_body_def)
next
  case (glue_hop qname qtype ns resp n m rest)
  then have "iterative_resolve n lib qname qtype (a_addresses (additional resp)) =
      Some (Inl (NXDomainError m))" by auto
  with glue_hop.hyps(1-4) show ?case by (simp add: try_body_glue)
next
  case (referral_hop qname qtype ns resp ns_names n next_servers m rest)
  then have re: "iterative_resolve n lib qname qtype next_servers =
      Some (Inl (NXDomainError m))" by auto
  have ne: "next_servers \<noteq> []"
  proof
    assume "next_servers = []"
    with referral_hop.IH obtain k
      where "server_loop (iterative_resolve k lib) lib qname qtype [] None 0 =
        Some (Inl (NXDomainError m))" by blast
    then show False by (simp add: exhausted_def)
  qed
  with referral_hop.hyps(6) have "ns_names \<noteq> []" by auto
  with referral_hop.hyps(2-6) ne re
  have "try_body (iterative_resolve n lib) lib qname qtype resp =
      Some (Raise (NXDomainError m))"
    by (simp add: try_body_def answer_loop_no_usable extend_addresses_eq)
  with referral_hop.hyps(1) show ?case by simp
next
  case (next_server n qname qtype ns rest m)
  from next_server.IH
  have rest: "\<forall>lt sr. server_loop (iterative_resolve n lib) lib qname qtype rest lt sr =
      Some (Inl (NXDomainError m))" by simp
  from next_server.hyps(1) rest
  have "\<forall>lt sr. server_loop (iterative_resolve n lib) lib qname qtype (ns # rest) lt sr =
      Some (Inl (NXDomainError m))"
    by (auto simp: nondecisive_def split: reply.splits option.splits flow.splits)
  then show ?case by simp
qed

text \<open>Conversely, \<^verbatim>\<open>NXDomainError\<close> is raised only along such a path.\<close>

lemma rdtype_CNAME: "rdtype rs = CNAME \<Longrightarrow> rs = RRset_CNAME (targets rs)"
  by (cases rs) simp_all

lemma answer_loop_Fallthrough:
  "answer_loop self t resp rs = Some Fallthrough \<Longrightarrow> no_usable_answer t rs"
  by (induction rs) (auto simp: no_usable_answer_def split: if_splits list.splits)

lemma answer_loop_raises_nx:
  assumes "answer_loop self t resp rs = Some (Raise (NXDomainError m))"
  shows "\<exists>before tg others after.
           rs = before @ RRset_CNAME (tg # others) # after \<and> no_usable_answer t before \<and>
           self tg t ROOT_SERVERS = Some (Inl (NXDomainError m))"
  using assms
proof (induction rs)
  case Nil
  then show ?case by simp
next
  case (Cons x xs)
  show ?case
  proof (cases "rdtype x = CNAME")
    case True
    with Cons.prems obtain tg others where tg: "targets x = tg # others"
      and s: "self tg t ROOT_SERVERS = Some (Inl (NXDomainError m))"
      by (auto split: list.splits)
    from rdtype_CNAME [OF True] tg have "x # xs = [] @ RRset_CNAME (tg # others) # xs"
      by simp
    moreover have "no_usable_answer t []" by (simp add: no_usable_answer_def)
    ultimately show ?thesis using s by blast
  next
    case False
    with Cons.prems have nt: "rdtype x \<noteq> t"
      and "answer_loop self t resp xs = Some (Raise (NXDomainError m))"
      by (auto split: if_splits)
    with Cons.IH obtain before tg others after
      where "xs = before @ RRset_CNAME (tg # others) # after" "no_usable_answer t before"
        "self tg t ROOT_SERVERS = Some (Inl (NXDomainError m))" by blast
    with False nt have "x # xs = (x # before) @ RRset_CNAME (tg # others) # after"
      "no_usable_answer t (x # before)"
      by (simp_all add: no_usable_answer_def)
    with \<open>self tg t ROOT_SERVERS = Some (Inl (NXDomainError m))\<close> show ?thesis by blast
  qed
qed

lemma authority_loop_Inl:
  "authority_loop q t rs acc f = Inl e \<Longrightarrow> \<exists>x. e = NoRecordError x"
  by (induction rs arbitrary: acc f) (auto split: if_splits)

lemma server_loop_nx_reaches:
  assumes IH: "\<forall>q t nss m. iterative_resolve n lib q t nss = Some (Inl (NXDomainError m)) \<longrightarrow>
                 reaches_nx lib n q t nss m"
    and "server_loop (iterative_resolve n lib) lib q t nss lt sr = Some (Inl (NXDomainError m))"
    and "lt = None \<or> (\<exists>x. lt = Some (TimeoutError x))"
  shows "reaches_nx lib (Suc n) q t nss m"
  using assms(2,3)
proof (induction nss arbitrary: lt sr)
  case Nil
  then show ?case by (auto simp: exhausted_def split: if_splits)
next
  case (Cons ns rest)
  let ?self = "iterative_resolve n lib"
  show ?case
  proof (cases "udp lib q t ns")
    case Timeout
    then have nd: "nondecisive ?self lib q t ns" by (simp add: nondecisive_def)
    from Timeout Cons.prems(1) Cons.IH have "reaches_nx lib (Suc n) q t rest m" by auto
    with nd show ?thesis by (rule reaches_nx.next_server)
  next
    case TransportError
    then have nd: "nondecisive ?self lib q t ns" by (simp add: nondecisive_def)
    from TransportError Cons.prems Cons.IH have "reaches_nx lib (Suc n) q t rest m" by auto
    with nd show ?thesis by (rule reaches_nx.next_server)
  next
    case (Response resp)
    with Cons.prems(1) obtain f where f: "try_body ?self lib q t resp = Some f"
      by (auto split: option.splits)
    show ?thesis
    proof (cases f)
      case (Return r)
      with Response f Cons.prems(1) show ?thesis by simp
    next
      case Fallthrough
      with Response f have nd: "nondecisive ?self lib q t ns" by (simp add: nondecisive_def)
      from Fallthrough Response f Cons.prems Cons.IH
      have "reaches_nx lib (Suc n) q t rest m" by auto
      with nd show ?thesis by (rule reaches_nx.next_server)
    next
      case (Raise e)
      show ?thesis
      proof (cases "reraised e")
        case False
        with Raise Response f have nd: "nondecisive ?self lib q t ns"
          by (simp add: nondecisive_def)
        from False Raise Response f Cons.prems Cons.IH
        have "reaches_nx lib (Suc n) q t rest m" by auto
        with nd show ?thesis by (rule reaches_nx.next_server)
      next
        case True
        with Raise Response f Cons.prems(1) have e: "e = NXDomainError m" by simp
        with Raise f have tb: "try_body ?self lib q t resp = Some (Raise (NXDomainError m))"
          by simp
        show ?thesis
        proof (cases "rcode resp = NXDOMAIN")
          case True
          with tb have m: "m = ''Domain '' @ q @ '' does not exist (NXDOMAIN)''"
            by (simp add: try_body_def)
          show ?thesis unfolding m using Response True by (rule reaches_nx.direct)
        next
          case nx: False
          from tb nx obtain g where g: "answer_loop ?self t resp (answer resp) = Some g"
            by (auto simp: try_body_def split: option.splits)
          show ?thesis
          proof (cases g)
            case (Return r)
            with tb nx g show ?thesis by (simp add: try_body_def)
          next
            case (Raise e')
            with tb nx g have "answer_loop ?self t resp (answer resp) =
                Some (Raise (NXDomainError m))" by (simp add: try_body_def)
            from answer_loop_raises_nx [OF this] obtain before tg others after
              where a: "answer resp = before @ RRset_CNAME (tg # others) # after"
                and b: "no_usable_answer t before"
                and c: "?self tg t ROOT_SERVERS = Some (Inl (NXDomainError m))" by blast
            from c IH have "reaches_nx lib n tg t ROOT_SERVERS m" by blast
            with Response nx a b show ?thesis by (rule reaches_nx.cname_chase)
          next
            case Fallthrough
            with g have nu: "no_usable_answer t (answer resp)"
              by (simp add: answer_loop_Fallthrough)
            show ?thesis
            proof (cases "a_addresses (additional resp) = []")
              case False
              with tb nx nu have "?self q t (a_addresses (additional resp)) =
                  Some (Inl (NXDomainError m))"
                by (auto simp: try_body_glue)
              with IH have "reaches_nx lib n q t (a_addresses (additional resp)) m" by blast
              with Response nx nu False show ?thesis by (rule reaches_nx.glue_hop)
            next
              case noglue: True
              show ?thesis
              proof (cases "authority_loop q t (authority resp) [] False")
                case (Inl e')
                with tb nx g Fallthrough noglue authority_loop_Inl [OF Inl]
                show ?thesis by (auto simp: try_body_def extend_addresses_eq)
              next
                case (Inr ns_names)
                with tb nx g Fallthrough noglue
                obtain nxt where nl: "ns_loop ?self lib ns_names [] = Some nxt"
                  and re: "?self q t nxt = Some (Inl (NXDomainError m))"
                  by (auto simp: try_body_def extend_addresses_eq
                      split: if_splits option.splits)
                from re IH have "reaches_nx lib n q t nxt m" by blast
                with Response nx nu noglue Inr nl show ?thesis
                  by (rule reaches_nx.referral_hop)
              qed
            qed
          qed
        qed
      qed
    qed
  qed
qed

lemma nx_reaches:
  "iterative_resolve n lib q t nss = Some (Inl (NXDomainError m)) \<Longrightarrow>
   reaches_nx lib n q t nss m"
proof (induction n arbitrary: q t nss m)
  case 0
  then show ?case by simp
next
  case (Suc n)
  from Suc.prems
  have "server_loop (iterative_resolve n lib) lib q t nss None 0 = Some (Inl (NXDomainError m))"
    by simp
  moreover have "\<forall>q t nss m. iterative_resolve n lib q t nss = Some (Inl (NXDomainError m)) \<longrightarrow>
                 reaches_nx lib n q t nss m"
    using Suc.IH by blast
  ultimately show ?case
    by (intro server_loop_nx_reaches [where lt = None and sr = 0]) simp_all
qed

lemma resolve_nx:
  assumes "from_text lib (qualify domain) = Inr qname"
  shows "resolve n lib domain = Some (Inl (NXDomainError m)) \<longleftrightarrow>
         iterative_resolve n lib qname A ROOT_SERVERS = Some (Inl (NXDomainError m))"
  using assms
  by (auto simp: resolve_def Let_def split: option.splits sum.splits error.splits)

text \<open>The example network: an NXDOMAIN in a sub-resolution, and paths to an NXDOMAIN.\<close>

lemma sub_resolution_raises_nx:
  "iterative_resolve (Suc (Suc (Suc n))) example_lib ''ns.gone.example.com.'' A ROOT_SERVERS =
     Some (Inl (NXDomainError ''Domain ns.gone.example.com. does not exist (NXDOMAIN)''))"
  by (simp add: example_eval)

lemma orphan_outcome:
  "iterative_resolve (Suc (Suc (Suc (Suc (Suc (Suc n)))))) example_lib
       ''orphan.example.com.'' A ROOT_SERVERS =
     Some (Inl (NoRecordError
       ''Found NS records but could not resolve any nameserver IPs for orphan.example.com.''))"
  by (simp add: example_eval)

lemma gone_after_nondecisive:
  "reaches_nx example_lib (Suc n) ''gone.example.com.'' A
     (''10.0.0.3'' # ''10.0.0.1'' # rest)
     ''Domain gone.example.com. does not exist (NXDOMAIN)''"
proof (rule reaches_nx.next_server)
  show "nondecisive (iterative_resolve n example_lib) example_lib ''gone.example.com.'' A
          ''10.0.0.3''"
    by (simp add: nondecisive_def example_eval)
  have "reaches_nx example_lib (Suc n) ''gone.example.com.'' A (''10.0.0.1'' # rest)
     (''Domain '' @ ''gone.example.com.'' @ '' does not exist (NXDOMAIN)'')"
    by (rule reaches_nx.direct
          [where resp = "\<lparr>rcode = NXDOMAIN, answer = [], authority = [RRset_SOA],
                           additional = []\<rparr>"])
       (simp_all add: example_udp_lib example_udp_def)
  then show "reaches_nx example_lib (Suc n) ''gone.example.com.'' A (''10.0.0.1'' # rest)
     ''Domain gone.example.com. does not exist (NXDOMAIN)''" by simp
qed

lemma deleg_at_hop:
  "reaches_nx example_lib (Suc n) ''deleg.example.com.'' A (''10.0.0.4'' # rest)
     ''Domain deleg.example.com. does not exist (NXDOMAIN)''"
proof -
  have "reaches_nx example_lib (Suc n) ''deleg.example.com.'' A (''10.0.0.4'' # rest)
     (''Domain '' @ ''deleg.example.com.'' @ '' does not exist (NXDOMAIN)'')"
    by (rule reaches_nx.direct
          [where resp = "\<lparr>rcode = NXDOMAIN, answer = [], authority = [RRset_SOA],
                           additional = []\<rparr>"])
       (simp_all add: example_udp_lib example_udp_def)
  then show ?thesis by simp
qed

lemma deleg_at_authority:
  "reaches_nx example_lib (Suc (Suc (Suc (Suc n)))) ''deleg.example.com.'' A
     (''10.0.0.1'' # rest) ''Domain deleg.example.com. does not exist (NXDOMAIN)''"
  by (rule reaches_nx.referral_hop
        [where resp = "\<lparr>rcode = NOERROR, answer = [],
            authority = [RRset_NS [''ns1.example.com.'']], additional = []\<rparr>"
          and ns_names = "[''ns1.example.com.'']" and next_servers = "[''10.0.0.4'']"])
     (simp_all add: example_eval no_usable_answer_def a_addresses_def deleg_at_hop)

lemma deleg_at_tld:
  "reaches_nx example_lib (Suc (Suc (Suc (Suc (Suc n))))) ''deleg.example.com.'' A
     (''192.5.6.30'' # rest) ''Domain deleg.example.com. does not exist (NXDOMAIN)''"
  by (rule reaches_nx.glue_hop
        [where resp = "\<lparr>rcode = NOERROR, answer = [],
            authority = [RRset_NS [''ns1.example.com.'']],
            additional = [RRset_A [''10.0.0.1'']]\<rparr>"])
     (simp_all add: example_udp_lib example_udp_def noerror_def no_usable_answer_def
        a_addresses_def deleg_at_authority)

lemma deleg_at_root:
  "reaches_nx example_lib (Suc (Suc (Suc (Suc (Suc (Suc n)))))) ''deleg.example.com.'' A
     ROOT_SERVERS ''Domain deleg.example.com. does not exist (NXDOMAIN)''"
  unfolding ROOT_SERVERS_def
  by (rule reaches_nx.glue_hop
        [where resp = "\<lparr>rcode = NOERROR, answer = [],
            authority = [RRset_NS [''a.gtld-servers.net.'']],
            additional = [RRset_A [''192.5.6.30'']]\<rparr>"])
     (simp_all add: example_udp_lib example_udp_def noerror_def no_usable_answer_def
        a_addresses_def deleg_at_tld)

text \<open>
  Claim C4 says that when any queried server answers with the status NXDOMAIN the
  engine raises \<^verbatim>\<open>NXDomainError\<close> at once and the failure reaches the caller of
  \<^verbatim>\<open>resolve\<close> unmodified. A server queried in the sub-resolution of an NS name is a
  queried server too, and there the exception is swallowed (line 141): the only
  name server of \<^verbatim>\<open>orphan.example.com.\<close> is a name that the server of the zone
  denies with NXDOMAIN; the sub-resolution raises \<^verbatim>\<open>NXDomainError\<close>, and
  \<^verbatim>\<open>resolve\<close> raises \<^verbatim>\<open>NoRecordError\<close>.
\<close>

theorem nx_in_sub_resolution_swallowed:
  "udp example_lib ''ns.gone.example.com.'' A ''10.0.0.1'' =
     Response \<lparr>rcode = NXDOMAIN, answer = [], authority = [RRset_SOA],
       additional = []\<rparr> \<and>
   iterative_resolve 997 example_lib ''ns.gone.example.com.'' A ROOT_SERVERS =
     Some (Inl (NXDomainError ''Domain ns.gone.example.com. does not exist (NXDOMAIN)'')) \<and>
   resolve 1000 example_lib ''orphan.example.com'' =
     Some (Inl (NoRecordError
       ''Found NS records but could not resolve any nameserver IPs for orphan.example.com.''))"
proof -
  have k: "(997::nat) = Suc (Suc (Suc 994))"
    and l: "(1000::nat) = Suc (Suc (Suc (Suc (Suc (Suc 994)))))" by simp_all
  have u: "udp example_lib ''ns.gone.example.com.'' A ''10.0.0.1'' =
     Response \<lparr>rcode = NXDOMAIN, answer = [], authority = [RRset_SOA],
       additional = []\<rparr>"
    by (simp add: example_udp_lib example_udp_def)
  have s: "iterative_resolve 997 example_lib ''ns.gone.example.com.'' A ROOT_SERVERS =
     Some (Inl (NXDomainError ''Domain ns.gone.example.com. does not exist (NXDOMAIN)''))"
    unfolding k by (rule sub_resolution_raises_nx)
  have e: "iterative_resolve 1000 example_lib ''orphan.example.com.'' A ROOT_SERVERS =
     Some (Inl (NoRecordError
       ''Found NS records but could not resolve any nameserver IPs for orphan.example.com.''))"
    unfolding l by (rule orphan_outcome)
  have r: "resolve 1000 example_lib ''orphan.example.com'' =
     Some (Inl (NoRecordError
       ''Found NS records but could not resolve any nameserver IPs for orphan.example.com.''))"
    by (simp add: resolve_def qualify_def endswith_dot_def example_from_text e)
  from u s r show ?thesis by simp
qed

text \<open>
  Claim C4, as the code has it. When a queried server answers with the status
  NXDOMAIN, the call of the engine that queried it raises \<^verbatim>\<open>NXDomainError\<close> at
  once, whatever servers follow in its list. With room for \<open>n\<close> levels, a call of
  the engine raises \<^verbatim>\<open>NXDomainError\<close> with a message exactly when a path leads from
  its list of servers to a server that answers NXDOMAIN, within \<open>n\<close> levels, through
  CNAME chases, glue hops, referral hops and servers passed over as not decisive;
  the message is the one raised at that server, unmodified, and it is then what
  \<^verbatim>\<open>resolve\<close> raises as well. An NXDOMAIN met inside the sub-resolution of an NS
  name is not on such a path: it is swallowed there.
\<close>

theorem nxdomain_propagates:
  "(reaches_nx lib n qname qtype nameservers m \<longleftrightarrow>
      iterative_resolve n lib qname qtype nameservers = Some (Inl (NXDomainError m))) \<and>
   (from_text lib (qualify domain) = Inr qname \<longrightarrow>
      (reaches_nx lib n qname A ROOT_SERVERS m \<longleftrightarrow>
         resolve n lib domain = Some (Inl (NXDomainError m))))"
proof -
  have fwd: "iterative_resolve n lib q t nss = Some (Inl (NXDomainError m))"
    if "reaches_nx lib n q t nss m" for q t nss
    using reaches_nx_raises [OF that] by auto
  have eq: "reaches_nx lib n q t nss m \<longleftrightarrow>
      iterative_resolve n lib q t nss = Some (Inl (NXDomainError m))" for q t nss
    using fwd nx_reaches by blast
  show ?thesis
    using eq resolve_nx [of lib domain qname n m] by blast
qed

theorem nxdomain_propagates_witness:
  "reaches_nx example_lib 1 ''gone.example.com.'' A [''10.0.0.3'', ''10.0.0.1'', ''10.0.0.2'']
     ''Domain gone.example.com. does not exist (NXDOMAIN)'' \<and>
   iterative_resolve 1 example_lib ''gone.example.com.'' A
       [''10.0.0.3'', ''10.0.0.1'', ''10.0.0.2''] =
     Some (Inl (NXDomainError ''Domain gone.example.com. does not exist (NXDOMAIN)'')) \<and>
   from_text example_lib (qualify ''deleg.example.com'') = Inr ''deleg.example.com.'' \<and>
   reaches_nx example_lib 6 ''deleg.example.com.'' A ROOT_SERVERS
     ''Domain deleg.example.com. does not exist (NXDOMAIN)'' \<and>
   resolve 6 example_lib ''deleg.example.com'' =
     Some (Inl (NXDomainError ''Domain deleg.example.com. does not exist (NXDOMAIN)''))"
proof -
  have g: "reaches_nx example_lib 1 ''gone.example.com.'' A
      [''10.0.0.3'', ''10.0.0.1'', ''10.0.0.2'']
      ''Domain gone.example.com. does not exist (NXDOMAIN)''"
    unfolding One_nat_def by (rule gone_after_nondecisive)
  have six: "(6::nat) = Suc (Suc (Suc (Suc (Suc (Suc 0)))))" by simp
  have d: "reaches_nx example_lib 6 ''deleg.example.com.'' A ROOT_SERVERS
      ''Domain deleg.example.com. does not exist (NXDOMAIN)''"
    unfolding six by (rule deleg_at_root)
  have q: "from_text example_lib (qualify ''deleg.example.com'') = Inr ''deleg.example.com.''"
    by (simp add: example_from_text qualify_def endswith_dot_def)
  from g nxdomain_propagates
    [of example_lib 1 "''gone.example.com.''" A "[''10.0.0.3'', ''10.0.0.1'', ''10.0.0.2'']"
        "''Domain gone.example.com. does not exist (NXDOMAIN)''"]
  have a: "iterative_resolve 1 example_lib ''gone.example.com.'' A
       [''10.0.0.3'', ''10.0.0.1'', ''10.0.0.2''] =
     Some (Inl (NXDomainError ''Domain gone.example.com. does not exist (NXDOMAIN)''))"
    by blast
  from d q nxdomain_propagates
    [of example_lib 6 "''deleg.example.com.''" A ROOT_SERVERS
        "''Domain deleg.example.com. does not exist (NXDOMAIN)''" "''deleg.example.com''"]
  have b: "resolve 6 example_lib ''deleg.example.com'' =
     Some (Inl (NXDomainError ''Domain deleg.example.com. does not exist (NXDOMAIN)''))"
    by blast
  from g a q d b show ?thesis by blast
qed

subsection \<open>All servers exhausted\<close>

lemma server_loop_all_nondecisive:
  assumes "\<forall>ns \<in> set nss. nondecisive self lib q t ns"
  shows "server_loop self lib q t nss lt sr =
     Some (Inl (exhausted q
       (case filter (\<lambda>ns. udp lib q t ns = Timeout) nss of
          [] \<Rightarrow> lt
        | x # xs \<Rightarrow> Some (TimeoutError
            (''DNS query timed out for '' @ q @ '' at server '' @ last (x # xs))))
       (sr + length (filter (responded lib q t) nss))))"
  using assms
proof (induction nss arbitrary: lt sr)
  case Nil
  then show ?case by simp
next
  case (Cons ns rest)
  then have nd: "nondecisive self lib q t ns"
    and rest: "\<forall>ns \<in> set rest. nondecisive self lib q t ns" by simp_all
  note IH = Cons.IH [OF rest]
  show ?case
  proof (cases "udp lib q t ns")
    case (Response resp)
    with nd have "try_body self lib q t resp = Some Fallthrough \<or>
        (\<exists>e. try_body self lib q t resp = Some (Raise e) \<and> \<not> reraised e)"
      by (auto simp: nondecisive_def split: option.splits flow.splits)
    with Response show ?thesis
      by (auto simp: IH responded_def)
  next
    case Timeout
    then show ?thesis
      by (simp add: IH responded_def split: list.splits)
  next
    case TransportError
    then show ?thesis
      by (simp add: IH responded_def)
  qed
qed

text \<open>
  Claim C5. When no server of the list is decisive, the engine raises exactly one
  exception: \<^verbatim>\<open>NoRecordError\<close> if at least one server responded at all; otherwise
  \<^verbatim>\<open>TimeoutError\<close>, for the last server that timed out, if one did; otherwise the
  generic \<^verbatim>\<open>DNSResolutionError\<close>.
\<close>

theorem exhaustion_category:
  assumes "\<forall>ns \<in> set nameservers. nondecisive self lib qname qtype ns"
  shows "server_loop self lib qname qtype nameservers None 0 = Some (Inl
     (if \<exists>ns \<in> set nameservers. responded lib qname qtype ns then
        NoRecordError (''No A or NS records found for '' @ qname)
      else if \<exists>ns \<in> set nameservers. udp lib qname qtype ns = Timeout then
        TimeoutError (''DNS query timed out for '' @ qname @ '' at server '' @
          last (filter (\<lambda>ns. udp lib qname qtype ns = Timeout) nameservers))
      else
        DNSResolutionError
          (''Unable to resolve domain '' @ qname @ '': all nameservers failed'')))"
proof -
  let ?T = "filter (\<lambda>ns. udp lib qname qtype ns = Timeout) nameservers"
  let ?R = "filter (responded lib qname qtype) nameservers"
  have r: "(\<exists>ns \<in> set nameservers. responded lib qname qtype ns) \<longleftrightarrow> length ?R > 0"
    by (auto simp: filter_empty_conv)
  have t: "(\<exists>ns \<in> set nameservers. udp lib qname qtype ns = Timeout) \<longleftrightarrow> ?T \<noteq> []"
    by (auto simp: filter_empty_conv)
  show ?thesis
    unfolding server_loop_all_nondecisive [OF assms] r t
    by (cases ?T) (auto simp: exhausted_def)
qed

theorem exhaustion_category_witness:
  "nondecisive (iterative_resolve 0 example_lib) example_lib ''example.com.'' A ''10.0.0.9'' \<and>
   nondecisive (iterative_resolve 0 example_lib) example_lib ''example.com.'' A ''10.0.0.3'' \<and>
   nondecisive (iterative_resolve 0 example_lib) example_lib ''example.com.'' A ''10.0.0.2'' \<and>
   udp example_lib ''example.com.'' A ''10.0.0.9'' = Timeout \<and>
   responded example_lib ''example.com.'' A ''10.0.0.3'' \<and>
   iterative_resolve 1 example_lib ''example.com.'' A [''10.0.0.9'', ''10.0.0.3'', ''10.0.0.2''] =
     Some (Inl (NoRecordError ''No A or NS records found for example.com.''))"
proof -
  have n: "nondecisive (iterative_resolve 0 example_lib) example_lib ''example.com.'' A ''10.0.0.9''"
    "nondecisive (iterative_resolve 0 example_lib) example_lib ''example.com.'' A ''10.0.0.3''"
    "nondecisive (iterative_resolve 0 example_lib) example_lib ''example.com.'' A ''10.0.0.2''"
    by (simp_all add: nondecisive_def example_defs)
  then have h: "\<forall>ns \<in> set [''10.0.0.9'', ''10.0.0.3'', ''10.0.0.2''].
       nondecisive (iterative_resolve 0 example_lib) example_lib ''example.com.'' A ns"
    by simp
  have r: "responded example_lib ''example.com.'' A ''10.0.0.3''"
    and t: "udp example_lib ''example.com.'' A ''10.0.0.9'' = Timeout"
    by (simp_all add: responded_def example_defs)
  from r have "\<exists>ns \<in> set [''10.0.0.9'', ''10.0.0.3'', ''10.0.0.2''].
      responded example_lib ''example.com.'' A ns" by simp
  with exhaustion_category [OF h]
  have "server_loop (iterative_resolve 0 example_lib) example_lib ''example.com.'' A
      [''10.0.0.9'', ''10.0.0.3'', ''10.0.0.2''] None 0 =
     Some (Inl (NoRecordError (''No A or NS records found for '' @ ''example.com.'')))"
    by (simp only: if_True)
  with n r t show ?thesis by simp
qed

subsection \<open>Referrals whose names cannot be resolved\<close>

lemma ns_loop_all_fail:
  "\<forall>nm \<in> set ns_names. sub_fails self lib nm \<Longrightarrow>
   ns_loop self lib ns_names acc = Some acc"
  by (induction ns_names arbitrary: acc)
     (auto simp: sub_fails_def split: sum.splits option.splits)

lemma ns_loop_drop_failed:
  "sub_fails self lib nm \<Longrightarrow>
   ns_loop self lib (before @ nm # after) acc = ns_loop self lib (before @ after) acc"
  by (induction before arbitrary: acc)
     (auto simp: sub_fails_def split: sum.splits option.splits)

text \<open>
  Claim C6. In the referral branch, an NS name whose sub-resolution ends in an
  exception of any kind, \<^verbatim>\<open>NXDomainError\<close> and \<^verbatim>\<open>TimeoutError\<close> included, gives no
  address; when this is so for every name of the referral, the engine raises
  \<^verbatim>\<open>NoRecordError\<close>, never \<^verbatim>\<open>TimeoutError\<close>.
\<close>

theorem unresolvable_referral:
  assumes "udp lib qname qtype ns = Response resp"
    and "rcode resp \<noteq> NXDOMAIN"
    and "no_usable_answer qtype (answer resp)"
    and "a_addresses (additional resp) = []"
    and "authority_loop qname qtype (authority resp) [] False = Inr ns_names"
    and "ns_names \<noteq> []"
    and "\<forall>nm \<in> set ns_names. sub_fails self lib nm"
  shows "(\<forall>nm before after acc. sub_fails self lib nm \<longrightarrow>
            ns_loop self lib (before @ nm # after) acc =
            ns_loop self lib (before @ after) acc) \<and>
         ns_loop self lib ns_names [] = Some [] \<and>
         server_loop self lib qname qtype (ns # rest) lt sr =
           Some (Inl (NoRecordError
             (''Found NS records but could not resolve any nameserver IPs for '' @ qname)))"
proof -
  have nl: "ns_loop self lib ns_names [] = Some []"
    using assms(7) by (rule ns_loop_all_fail)
  have "try_body self lib qname qtype resp =
          Some (Raise (NoRecordError
             (''Found NS records but could not resolve any nameserver IPs for '' @ qname)))"
    using assms(2-6) nl
    by (simp add: try_body_def answer_loop_no_usable extend_addresses_eq)
  with assms(1) nl show ?thesis by (simp add: ns_loop_drop_failed)
qed

theorem unresolvable_referral_witness:
  "udp example_lib ''lame.example.com.'' A ''10.0.0.1'' =
     Response \<lparr>rcode = NOERROR, answer = [], authority = [RRset_NS [''ns.lost.'']],
       additional = []\<rparr> \<and>
   iterative_resolve 1 example_lib ''ns.lost.'' A ROOT_SERVERS =
     Some (Inl (TimeoutError ''DNS query timed out for ns.lost. at server 202.12.27.33'')) \<and>
   sub_fails (iterative_resolve 1 example_lib) example_lib ''ns.lost.'' \<and>
   iterative_resolve 2 example_lib ''lame.example.com.'' A [''10.0.0.1'', ''10.0.0.3''] =
     Some (Inl (NoRecordError
       ''Found NS records but could not resolve any nameserver IPs for lame.example.com.''))"
proof -
  let ?r = "\<lparr>rcode = NOERROR, answer = [], authority = [RRset_NS [''ns.lost.'']],
       additional = []\<rparr>"
  let ?self = "iterative_resolve 1 example_lib"
  have u: "udp example_lib ''lame.example.com.'' A ''10.0.0.1'' = Response ?r"
    by (simp add: example_udp_lib example_udp_def noerror_def)
  have f: "\<forall>nm \<in> set [''ns.lost.'']. sub_fails ?self example_lib nm"
    by (simp add: sub_fails_def example_from_text ns_lost_times_out del: One_nat_def)
  have "server_loop ?self example_lib ''lame.example.com.'' A (''10.0.0.1'' # [''10.0.0.3''])
          None 0 =
        Some (Inl (NoRecordError
          (''Found NS records but could not resolve any nameserver IPs for '' @
             ''lame.example.com.'')))"
    using unresolvable_referral
      [OF u _ _ _ _ _ f, where rest = "[''10.0.0.3'']" and lt = None and sr = 0]
    by (simp add: no_usable_answer_def a_addresses_def)
  then have "iterative_resolve (Suc 1) example_lib ''lame.example.com.'' A
       [''10.0.0.1'', ''10.0.0.3''] =
     Some (Inl (NoRecordError
       ''Found NS records but could not resolve any nameserver IPs for lame.example.com.''))"
    by simp
  then have "iterative_resolve 2 example_lib ''lame.example.com.'' A
       [''10.0.0.1'', ''10.0.0.3''] =
     Some (Inl (NoRecordError
       ''Found NS records but could not resolve any nameserver IPs for lame.example.com.''))"
    by (simp only: Suc_1)
  moreover from f have "sub_fails ?self example_lib ''ns.lost.''" by simp
  ultimately show ?thesis using u ns_lost_times_out by blast
qed

subsection \<open>Re-entry from the root servers\<close>

lemma answer_loop_root_only:
  "\<forall>q t. self q t ROOT_SERVERS = self' q t ROOT_SERVERS \<Longrightarrow>
   answer_loop self qtype resp rs = answer_loop self' qtype resp rs"
  by (induction rs) (auto split: list.splits)

lemma ns_loop_root_only:
  "\<forall>q t. self q t ROOT_SERVERS = self' q t ROOT_SERVERS \<Longrightarrow>
   ns_loop self lib names acc = ns_loop self' lib names acc"
  by (induction names arbitrary: acc) (auto split: sum.splits option.splits)

text \<open>
  Claim C7. The chase of a CNAME target and the sub-resolution of an NS name call the
  engine on \<^verbatim>\<open>ROOT_SERVERS\<close> and on no other list: two engines that agree on
  the root servers give the loop over the answer section and the loop over the
  names of a referral the same value. For a whole level, the only calls on another
  list are those for the same name and type. The list is the constant of thirteen
  addresses; the functions only read it.
\<close>

theorem reentry_from_root:
  assumes "\<forall>q t. self q t ROOT_SERVERS = self' q t ROOT_SERVERS"
  shows "answer_loop self qtype resp rs = answer_loop self' qtype resp rs \<and>
         ns_loop self lib ns_names acc = ns_loop self' lib ns_names acc \<and>
         ((\<forall>s. self qname qtype s = self' qname qtype s) \<longrightarrow>
            server_loop self lib qname qtype nameservers lt sr =
            server_loop self' lib qname qtype nameservers lt sr) \<and>
         length ROOT_SERVERS = 13"
proof -
  note al = answer_loop_root_only [where self=self and self'=self', OF assms]
  note nl = ns_loop_root_only [where self=self and self'=self', OF assms]
  have tb: "try_body self lib qname qtype r = try_body self' lib qname qtype r"
    if "\<forall>s. self qname qtype s = self' qname qtype s" for r
    using that
    by (simp add: try_body_def al nl
          cong: option.case_cong flow.case_cong sum.case_cong if_cong)
  have sl: "server_loop self lib qname qtype nameservers lt sr =
            server_loop self' lib qname qtype nameservers lt sr"
    if "\<forall>s. self qname qtype s = self' qname qtype s"
    using that
    by (induction nameservers arbitrary: lt sr)
       (simp_all add: tb split: reply.splits
          cong: option.case_cong flow.case_cong if_cong)
  show ?thesis
    using al nl sl by (simp add: ROOT_SERVERS_def)
qed

theorem reentry_from_root_witness:
  "(\<forall>q t. (\<lambda>q t s. if s = ROOT_SERVERS \<or> q = ''example.com.'' then Some (Inl (NXDomainError q))
                     else None) q t ROOT_SERVERS =
           (\<lambda>q t s. Some (Inl (NXDomainError q))) q t ROOT_SERVERS) \<and>
   answer_loop (\<lambda>q t s. if s = ROOT_SERVERS \<or> q = ''example.com.''
                         then Some (Inl (NXDomainError q)) else None) A
       \<lparr>rcode = NOERROR, answer = [RRset_CNAME [''www.example.net.'']], authority = [],
          additional = []\<rparr> [RRset_CNAME [''www.example.net.'']] =
     Some (Raise (NXDomainError ''www.example.net.'')) \<and>
   ns_loop (\<lambda>q t s. if s = ROOT_SERVERS \<or> q = ''example.com.''
                     then Some (Inl (NXDomainError q)) else None) example_lib
       [''ns1.example.net.''] [''10.0.0.7''] = Some [''10.0.0.7''] \<and>
   server_loop (\<lambda>q t s. if s = ROOT_SERVERS \<or> q = ''example.com.''
                     then Some (Inl (NXDomainError q)) else None) example_lib
       ''example.com.'' A [''192.5.6.30''] None 0 =
     Some (Inl (NXDomainError ''example.com.''))"
proof -
  let ?self = "(\<lambda>q t s. if s = ROOT_SERVERS \<or> q = ''example.com.''
                     then Some (Inl (NXDomainError q)) else None) :: engine"
  let ?self' = "(\<lambda>q t s. Some (Inl (NXDomainError q))) :: engine"
  let ?r = "\<lparr>rcode = NOERROR, answer = [RRset_CNAME [''www.example.net.'']], authority = [],
          additional = []\<rparr>"
  have h: "\<forall>q t. ?self q t ROOT_SERVERS = ?self' q t ROOT_SERVERS" by simp
  have g: "\<forall>s. ?self ''example.com.'' A s = ?self' ''example.com.'' A s" by simp
  from reentry_from_root [where self = ?self and self' = ?self', OF h,
      of A ?r "[RRset_CNAME [''www.example.net.'']]" example_lib "[''ns1.example.net.'']"
         "[''10.0.0.7'']" "''example.com.''" "[''192.5.6.30'']" None 0] g
  have "answer_loop ?self A ?r [RRset_CNAME [''www.example.net.'']] =
          answer_loop ?self' A ?r [RRset_CNAME [''www.example.net.'']]"
    and "ns_loop ?self example_lib [''ns1.example.net.''] [''10.0.0.7''] =
          ns_loop ?self' example_lib [''ns1.example.net.''] [''10.0.0.7'']"
    and "server_loop ?self example_lib ''example.com.'' A [''192.5.6.30''] None 0 =
          server_loop ?self' example_lib ''example.com.'' A [''192.5.6.30''] None 0"
    by blast+
  moreover have "answer_loop ?self' A ?r [RRset_CNAME [''www.example.net.'']] =
      Some (Raise (NXDomainError ''www.example.net.''))" by simp
  moreover have "ns_loop ?self' example_lib [''ns1.example.net.''] [''10.0.0.7''] =
      Some [''10.0.0.7'']" by (simp add: example_from_text)
  moreover have "server_loop ?self' example_lib ''example.com.'' A [''192.5.6.30''] None 0 =
      Some (Inl (NXDomainError ''example.com.''))"
    by (simp add: example_udp_lib example_udp_def noerror_def try_body_def)
  ultimately show ?thesis using h by simp
qed

subsection \<open>Glue before the authority section\<close>

text \<open>
  Claim C8. When the status is not NXDOMAIN, the answer section has no usable rrset
  and the additional section holds at least one address, the body re-enters the
  engine with the same name and type on exactly the addresses of the rrsets of type
  A of the additional section, and its outcome is that of the re-entry: the
  authority section is not read.
\<close>

theorem glue_before_authority:
  assumes "udp lib qname qtype ns = Response resp"
    and "rcode resp \<noteq> NXDOMAIN"
    and "no_usable_answer qtype (answer resp)"
    and "\<exists>rs \<in> set (additional resp). rdtype rs = A \<and> addresses rs \<noteq> []"
  shows "try_body self lib qname qtype resp =
           map_option flow_of (self qname qtype (a_addresses (additional resp))) \<and>
         server_loop self lib qname qtype (ns # rest) lt sr =
           (case self qname qtype (a_addresses (additional resp)) of
              None \<Rightarrow> None
            | Some (Inr r) \<Rightarrow> Some (Inr r)
            | Some (Inl e) \<Rightarrow>
                if reraised e then Some (Inl e)
                else server_loop self lib qname qtype rest lt (sr + 1))"
proof -
  from assms(4) have ne: "a_addresses (additional resp) \<noteq> []"
    by (simp add: a_addresses_nonempty)
  have tb: "try_body self lib qname qtype resp =
           map_option flow_of (self qname qtype (a_addresses (additional resp)))"
    using assms(2,3) ne by (rule try_body_glue)
  show ?thesis
  proof (cases "self qname qtype (a_addresses (additional resp))")
    case None
    with tb assms(1) show ?thesis by simp
  next
    case (Some z)
    with tb assms(1) show ?thesis by (cases z) simp_all
  qed
qed

theorem glue_before_authority_witness:
  "udp example_lib ''example.com.'' A ''198.41.0.4'' =
     Response \<lparr>rcode = NOERROR, answer = [],
       authority = [RRset_NS [''a.gtld-servers.net.'']],
       additional = [RRset_A [''192.5.6.30'']]\<rparr> \<and>
   a_addresses [RRset_A [''192.5.6.30'']] = [''192.5.6.30''] \<and>
   try_body (iterative_resolve 2 example_lib) example_lib ''example.com.'' A
     \<lparr>rcode = NOERROR, answer = [],
       authority = [RRset_NS [''a.gtld-servers.net.'']],
       additional = [RRset_A [''192.5.6.30'']]\<rparr> =
     map_option flow_of (iterative_resolve 2 example_lib ''example.com.'' A [''192.5.6.30''])"
proof -
  let ?r = "\<lparr>rcode = NOERROR, answer = [],
       authority = [RRset_NS [''a.gtld-servers.net.'']],
       additional = [RRset_A [''192.5.6.30'']]\<rparr>"
  have u: "udp example_lib ''example.com.'' A ''198.41.0.4'' = Response ?r"
    by (simp add: example_udp_lib example_udp_def noerror_def)
  have a: "a_addresses [RRset_A [''192.5.6.30'']] = [''192.5.6.30'']"
    by (simp add: a_addresses_def)
  have "try_body (iterative_resolve 2 example_lib) example_lib ''example.com.'' A ?r =
     map_option flow_of (iterative_resolve 2 example_lib ''example.com.'' A
        (a_addresses (additional ?r)))"
    using glue_before_authority [OF u, of "iterative_resolve 2 example_lib" "[]" None 0]
    by (simp add: no_usable_answer_def)
  with u a show ?thesis by simp
qed

subsection \<open>The trailing dot\<close>

text \<open>
  Claim C9. For a domain that does not end in a dot, \<^verbatim>\<open>resolve\<close> of the domain and of
  the domain followed by a dot qualify to the same text, so they query the same
  name, and have the same outcome.
\<close>

theorem trailing_dot:
  assumes "\<not> endswith_dot domain"
  shows "qualify domain = domain @ ''.'' \<and> qualify (domain @ ''.'') = domain @ ''.'' \<and>
         resolve n lib domain = resolve n lib (domain @ ''.'')"
proof -
  have "qualify domain = domain @ ''.''" "qualify (domain @ ''.'') = domain @ ''.''"
    using assms by (simp_all add: qualify_def endswith_dot_def)
  then show ?thesis by (simp add: resolve_def)
qed

theorem trailing_dot_witness:
  "\<not> endswith_dot ''example.com'' \<and> endswith_dot ''example.com.'' \<and>
   resolve 3 example_lib ''example.com'' = resolve 3 example_lib ''example.com.''"
proof -
  have h: "\<not> endswith_dot ''example.com''" by (simp add: endswith_dot_def)
  from trailing_dot [OF h, of 3 example_lib]
  have "resolve 3 example_lib ''example.com'' = resolve 3 example_lib ''example.com.''"
    by simp
  with h show ?thesis by (simp add: endswith_dot_def)
qed

subsection \<open>Success means an rrset of the requested type\<close>

lemma answer_loop_Return:
  assumes "answer_loop self t resp rs = Some (Return r)"
    and "\<forall>q s r'. self q t s = Some (Inr r') \<longrightarrow> has_type t r'"
    and "set rs \<subseteq> set (answer resp)"
  shows "has_type t r"
  using assms
proof (induction rs)
  case Nil
  then show ?case by simp
next
  case (Cons x xs)
  show ?case
  proof (cases "rdtype x = CNAME")
    case True
    with Cons.prems(1) obtain tg tgs o' where tg: "targets x = tg # tgs"
      and o': "self tg t ROOT_SERVERS = Some o'" and f: "flow_of o' = Return r"
      by (auto split: list.splits)
    from f obtain "o' = Inr r" by (cases o') auto
    with o' Cons.prems(2) show ?thesis by blast
  next
    case False
    show ?thesis
    proof (cases "rdtype x = t")
      case True
      with False Cons.prems have "r = resp" "x \<in> set (answer resp)" by auto
      with True show ?thesis unfolding has_type_def by blast
    next
      case nt: False
      with False Cons show ?thesis by auto
    qed
  qed
qed

lemma try_body_Return:
  assumes "try_body self lib q t resp = Some (Return r)"
    and "\<forall>q s r'. self q t s = Some (Inr r') \<longrightarrow> has_type t r'"
  shows "has_type t r"
proof -
  from assms(1) have nx: "rcode resp \<noteq> NXDOMAIN"
    by (auto simp: try_body_def split: if_splits)
  show ?thesis
  proof (cases "answer_loop self t resp (answer resp)")
    case None
    with assms(1) nx show ?thesis by (simp add: try_body_def)
  next
    case (Some f)
    show ?thesis
    proof (cases f)
      case (Return r')
      with Some assms(1) nx have "r' = r" by (simp add: try_body_def)
      with Some Return answer_loop_Return[where self=self and t=t, OF _ assms(2)] show ?thesis by blast
    next
      case (Raise e)
      with Some assms(1) nx show ?thesis by (simp add: try_body_def)
    next
      case Fallthrough
      with Some assms(1) nx assms(2) show ?thesis
        by (auto simp: try_body_def Let_def split: if_splits sum.splits option.splits
            dest!: map_flow_of_Return)
    qed
  qed
qed

lemma server_loop_Return:
  assumes "server_loop self lib q t nss lt sr = Some (Inr r)"
    and "\<forall>q s r'. self q t s = Some (Inr r') \<longrightarrow> has_type t r'"
  shows "has_type t r"
  using assms(1)
proof (induction nss arbitrary: lt sr)
  case Nil
  then show ?case by simp
next
  case (Cons ns rest)
  then show ?case
    by (auto split: reply.splits option.splits flow.splits if_splits
        dest: try_body_Return[where self=self and t=t, OF _ assms(2)])
qed

lemma iterative_resolve_has_type:
  "iterative_resolve n lib q t nss = Some (Inr r) \<Longrightarrow> has_type t r"
proof (induction n arbitrary: q nss r)
  case 0
  then show ?case by simp
next
  case (Suc n)
  from Suc.prems have "server_loop (iterative_resolve n lib) lib q t nss None 0 = Some (Inr r)"
    by simp
  then show ?case
    by (rule server_loop_Return) (use Suc.IH in blast)
qed

text \<open>
  Claim C10. Whenever the engine or \<^verbatim>\<open>resolve\<close> returns without raising, the answer
  section of the returned response holds an rrset of the requested type (type A for
  \<^verbatim>\<open>resolve\<close>), through every CNAME chase, glue hop and referral: the only return
  that is not the return of a re-entry is guarded by \<^verbatim>\<open>rrset.rdtype == qtype\<close>, and
  every re-entry asks for the same type.
\<close>

theorem success_has_requested_type:
  "(iterative_resolve n lib qname qtype nameservers = Some (Inr r) \<longrightarrow> has_type qtype r) \<and>
   (resolve n lib domain = Some (Inr r') \<longrightarrow> has_type A r')"
proof -
  have "has_type A r'" if "resolve n lib domain = Some (Inr r')"
  proof -
    from that obtain dn where "iterative_resolve n lib dn A ROOT_SERVERS = Some (Inr r')"
      by (auto simp: resolve_def Let_def split: sum.splits option.splits error.splits)
    then show ?thesis by (rule iterative_resolve_has_type)
  qed
  then show ?thesis by (auto dest: iterative_resolve_has_type)
qed

theorem success_has_requested_type_witness:
  "iterative_resolve 3 example_lib ''example.com.'' A ROOT_SERVERS =
     Some (Inr \<lparr>rcode = NOERROR, answer = [RRset_A [''93.184.216.34'']],
                 authority = [], additional = []\<rparr>) \<and>
   resolve 3 example_lib ''example.com'' =
     Some (Inr \<lparr>rcode = NOERROR, answer = [RRset_A [''93.184.216.34'']],
                 authority = [], additional = []\<rparr>) \<and>
   has_type A \<lparr>rcode = NOERROR, answer = [RRset_A [''93.184.216.34'']],
                 authority = [], additional = []\<rparr>"
proof -
  let ?r = "\<lparr>rcode = NOERROR, answer = [RRset_A [''93.184.216.34'']],
                 authority = [], additional = []\<rparr>"
  have a: "iterative_resolve 3 example_lib ''example.com.'' A ROOT_SERVERS = Some (Inr ?r)"
    by (rule example_resolution)
  have b: "resolve 3 example_lib ''example.com'' = Some (Inr ?r)"
    by (simp add: resolve_def qualify_def endswith_dot_def example_resolution
          example_from_text)
  from a b success_has_requested_type
    [of 3 example_lib "''example.com.''" A ROOT_SERVERS ?r "''example.com''" ?r]
  show ?thesis by blast
qed

end
